theory Spec2Isabelle
  imports Complex_Main "HOL-Library.Word" "HOL-Library.Log_Nat"
begin

section \<open>Values held by an event\<close>

text \<open>
  An event of honeytail is a timestamp and a \<^verbatim>\<open>map[string]interface{}\<close>. The dynamic
  values the publisher inspects are strings, \<^verbatim>\<open>int64\<close> and \<^verbatim>\<open>float64\<close>; booleans stand
  for every other dynamic type (no type switch or assertion of the publisher matches them).

  A \<^verbatim>\<open>float64\<close> is modelled by the number it denotes: a finite value by that real
  number (both zeros are the number 0), or one of the infinities, or NaN. The publisher
  only compares floats with zero, copies them and converts integers to them, so the bit
  pattern is never observed.
\<close>

datatype float64 = Finite real | PosInf | NegInf | NaN

datatype val = VString string | VInt64 "64 word" | VFloat64 float64 | VBool bool

text \<open>The timestamp is an instant, in nanoseconds since the Unix epoch.\<close>

record event =
  Timestamp :: int
  Data :: "string \<rightharpoonup> val"

text \<open>The comparisons \<^verbatim>\<open>x < 0\<close>, \<^verbatim>\<open>x > 0.0\<close> and \<^verbatim>\<open>x == 0.0\<close> of IEEE 754: each is false on NaN.\<close>

fun f64_lt_zero :: "float64 \<Rightarrow> bool" where
  "f64_lt_zero (Finite r) = (r < 0)"
| "f64_lt_zero NegInf = True"
| "f64_lt_zero PosInf = False"
| "f64_lt_zero NaN = False"

fun f64_gt_zero :: "float64 \<Rightarrow> bool" where
  "f64_gt_zero (Finite r) = (0 < r)"
| "f64_gt_zero PosInf = True"
| "f64_gt_zero NegInf = False"
| "f64_gt_zero NaN = False"

fun f64_eq_zero :: "float64 \<Rightarrow> bool" where
  "f64_eq_zero (Finite r) = (r = 0)"
| "f64_eq_zero PosInf = False"
| "f64_eq_zero NegInf = False"
| "f64_eq_zero NaN = False"

text \<open>
  The conversion \<^verbatim>\<open>float64(i)\<close> of an integer rounds to the nearest number with a 53 bit
  significand, ties to even. Below \<open>2 ^ 53\<close> in magnitude it is exact.
\<close>

definition round53 :: "int \<Rightarrow> int" where
  "round53 i =
     (let a = \<bar>i\<bar> in
      if a < 2 ^ 53 then i
      else
        let e = floorlog 2 (nat a) - 53;
            q = a div 2 ^ e;
            r = a mod 2 ^ e;
            h = 2 ^ (e - 1);
            q' = (if h < r \<or> (r = h \<and> odd q) then q + 1 else q)
        in sgn i * (q' * 2 ^ e))"

definition float64_of_int :: "int \<Rightarrow> float64" where
  "float64_of_int i = Finite (real_of_int (round53 i))"

section \<open>dropNegativeTimes\<close>

definition timeFields :: "string list" where
  "timeFields =
     [''response_processing_time'',
      ''request_processing_time'',
      ''backend_processing_time'',
      ''time_taken'']"

definition timedOutMessage :: "string \<Rightarrow> string" where
  "timedOutMessage f =
     f @ '' was -1 -- upstream server timed out, disconnected, or sent malformed response''"

text \<open>The type switch of the loop body: \<^verbatim>\<open>tFloat\<close> keeps its zero value on any other type.\<close>

fun tFloat :: "val \<Rightarrow> float64" where
  "tFloat (VInt64 t) = float64_of_int (sint t)"
| "tFloat (VFloat64 t) = t"
| "tFloat (VString t) = Finite 0"
| "tFloat (VBool t) = Finite 0"

text \<open>One iteration of the loop over \<^verbatim>\<open>timeFields\<close>, on the data map.\<close>

definition dropNegativeTime :: "string \<Rightarrow> (string \<rightharpoonup> val) \<Rightarrow> (string \<rightharpoonup> val)" where
  "dropNegativeTime f d =
     (case d f of
        None \<Rightarrow> d
      | Some t \<Rightarrow>
          if f64_lt_zero (tFloat t)
          then (d(f := None))(''error'' \<mapsto> VString (timedOutMessage f))
          else d)"

definition dropNegativeTimes :: "event \<Rightarrow> event" where
  "dropNegativeTimes ev = ev\<lparr>Data := fold dropNegativeTime timeFields (Data ev)\<rparr>"

text \<open>
  The specification's wording of the test: the field is present and holds a number
  (\<^verbatim>\<open>int64\<close> or \<^verbatim>\<open>float64\<close>) that is strictly negative.
\<close>

fun negativeNumber :: "val option \<Rightarrow> bool" where
  "negativeNumber (Some (VInt64 t)) = (sint t < 0)"
| "negativeNumber (Some (VFloat64 t)) = f64_lt_zero t"
| "negativeNumber (Some (VString t)) = False"
| "negativeNumber (Some (VBool t)) = False"
| "negativeNumber None = False"

section \<open>addTraceData\<close>

text \<open>
  \<^verbatim>\<open>strings.Split(s, sep)\<close> for a separator of one byte: the substrings between the
  separators, one more than there are separators (a single empty string for the empty
  string). The result is never empty, so the first case of the inner \<open>case\<close> is never
  taken.
\<close>

fun strings_Split :: "char \<Rightarrow> string \<Rightarrow> string list" where
  "strings_Split sep [] = [[]]"
| "strings_Split sep (c # s) =
     (if c = sep then [] # strings_Split sep s
      else (case strings_Split sep s of
              [] \<Rightarrow> [[c]]
            | piece # pieces \<Rightarrow> (c # piece) # pieces))"

text \<open>
  A run-time panic of Go: a failed single-value type assertion, or a method call through
  a nil pointer.
\<close>

datatype panic = InterfaceConversion | NilPointerDereference

text \<open>
  The loop over the fields of the header works on the data map and the local variable
  \<^verbatim>\<open>rootSpan\<close>. \<open>traceSwitch\<close> is the \<^verbatim>\<open>switch key\<close> statement, \<open>traceField\<close> one iteration.
\<close>

type_synonym traceState = "(string \<rightharpoonup> val) \<times> bool"

definition traceSwitch :: "bool \<Rightarrow> string \<Rightarrow> string \<Rightarrow> traceState \<Rightarrow> traceState" where
  "traceSwitch edgeMode key v st =
     (case st of (d, rootSpan) \<Rightarrow>
        if key = ''Root'' then (d(''trace.trace_id'' \<mapsto> VString v), rootSpan)
        else if key = ''Self'' then (d(''trace.span_id'' \<mapsto> VString v), False)
        else if key = ''Parent'' then
          (if \<not> edgeMode then (d(''trace.parent_id'' \<mapsto> VString v), False)
           else (d, rootSpan))
        else if key = ''Sampled'' then (d(''sampled'' \<mapsto> VString v), rootSpan)
        else (d(key \<mapsto> VString v), rootSpan))"

definition traceField :: "bool \<Rightarrow> string \<Rightarrow> traceState \<Rightarrow> traceState" where
  "traceField edgeMode field st =
     (case strings_Split CHR ''='' field of
        [key, v] \<Rightarrow> traceSwitch edgeMode key v st
      | _ \<Rightarrow> st)"

definition traceFields :: "bool \<Rightarrow> string \<Rightarrow> (string \<rightharpoonup> val) \<Rightarrow> traceState" where
  "traceFields edgeMode amznTraceID d =
     fold (traceField edgeMode) (strings_Split CHR '';'' amznTraceID) (d, True)"

text \<open>
  The assignment \<^verbatim>\<open>ev.Data["trace.span_id"] = ev.Data["trace.trace_id"].(string)\<close> under
  \<^verbatim>\<open>if rootSpan\<close>: the assertion panics unless the field is present and a string.
\<close>

definition rootSpanID :: "traceState \<Rightarrow> panic + (string \<rightharpoonup> val)" where
  "rootSpanID st =
     (case st of (d, rootSpan) \<Rightarrow>
        if rootSpan then
          (case d ''trace.trace_id'' of
             Some (VString traceID) \<Rightarrow> Inr (d(''trace.span_id'' \<mapsto> VString traceID))
           | _ \<Rightarrow> Inl InterfaceConversion)
        else Inr d)"

text \<open>
  \<^verbatim>\<open>Time.Sub\<close> saturates at the least and the greatest \<^verbatim>\<open>Duration\<close> (an \<^verbatim>\<open>int64\<close> of
  nanoseconds). Division of Go integers truncates towards zero.
\<close>

definition time_Sub :: "int \<Rightarrow> int \<Rightarrow> int" where
  "time_Sub t u =
     (let d = t - u in
      if d < - (2 ^ 63) then - (2 ^ 63)
      else if 2 ^ 63 - 1 < d then 2 ^ 63 - 1
      else d)"

definition go_quot :: "int \<Rightarrow> int \<Rightarrow> int" where
  "go_quot a b = sgn a * sgn b * (\<bar>a\<bar> div \<bar>b\<bar>)"

definition Millisecond :: int where
  "Millisecond = 1000000"

text \<open>
  The duration. \<^verbatim>\<open>time.Parse(time.RFC3339Nano, s)\<close> belongs to the standard library and is
  a parameter: \<open>time_Parse s\<close> is the parsed instant, or \<open>None\<close> for a parse error.
\<close>

definition responseDuration :: "(string \<Rightarrow> int option) \<Rightarrow> int \<Rightarrow> (string \<rightharpoonup> val) \<Rightarrow> float64" where
  "responseDuration time_Parse timestamp d =
     (case d ''response_time'' of
        Some (VString endTime) \<Rightarrow>
          (case time_Parse endTime of
             Some tm \<Rightarrow>
               (let duration = time_Sub tm timestamp in
                if 0 < duration then float64_of_int (go_quot duration Millisecond)
                else Finite 0)
           | None \<Rightarrow> Finite 0)
      | _ \<Rightarrow> Finite 0)"

definition durationMs :: "(string \<Rightarrow> int option) \<Rightarrow> int \<Rightarrow> (string \<rightharpoonup> val) \<Rightarrow> float64" where
  "durationMs time_Parse timestamp d =
     (let ms = responseDuration time_Parse timestamp d in
      if f64_eq_zero ms then
        (case d ''request_processing_time'' of
           Some (VFloat64 t) \<Rightarrow> t
         | _ \<Rightarrow> Finite 0)
      else ms)"

definition addDuration :: "(string \<Rightarrow> int option) \<Rightarrow> int \<Rightarrow> (string \<rightharpoonup> val) \<Rightarrow> (string \<rightharpoonup> val)" where
  "addDuration time_Parse timestamp d =
     (let ms = durationMs time_Parse timestamp d in
      if f64_gt_zero ms then d(''duration_ms'' \<mapsto> VFloat64 ms) else d)"

definition addServiceName :: "(string \<rightharpoonup> val) \<Rightarrow> (string \<rightharpoonup> val)" where
  "addServiceName d =
     (case d ''elb'' of
        Some (VString elb) \<Rightarrow> d(''service_name'' \<mapsto> VString elb)
      | _ \<Rightarrow> d)"

definition addName :: "(string \<rightharpoonup> val) \<Rightarrow> (string \<rightharpoonup> val)" where
  "addName d =
     (case d ''request_path'' of
        Some (VString requestPath) \<Rightarrow> d(''name'' \<mapsto> VString requestPath)
      | _ \<Rightarrow> d)"

definition renameTraceHeader :: "string \<Rightarrow> (string \<rightharpoonup> val) \<Rightarrow> (string \<rightharpoonup> val)" where
  "renameTraceHeader amznTraceID d =
     (d(''trace_id'' := None))(''request.headers.x-amzn-trace-id'' \<mapsto> VString amznTraceID)"

definition addTraceData :: "(string \<Rightarrow> int option) \<Rightarrow> event \<Rightarrow> bool \<Rightarrow> panic + event" where
  "addTraceData time_Parse ev edgeMode =
     (case Data ev ''trace_id'' of
        Some (VString amznTraceID) \<Rightarrow>
          (case rootSpanID (traceFields edgeMode amznTraceID (Data ev)) of
             Inl p \<Rightarrow> Inl p
           | Inr d \<Rightarrow>
               Inr (ev\<lparr>Data :=
                 renameTraceHeader amznTraceID
                   (addName (addServiceName (addDuration time_Parse (Timestamp ev) d)))\<rparr>))
      | _ \<Rightarrow> Inr ev)"

text \<open>
  The header as the specification reads it: the list of its \<open>key=value\<close> pairs, in order;
  a field that does not split into exactly two parts at \<^verbatim>\<open>=\<close> is no pair. \<open>fieldOf\<close> is
  the data field that a pair with a given key is stored under, if any.
\<close>

definition kvPairs :: "string \<Rightarrow> (string \<times> string) list" where
  "kvPairs h =
     List.map_filter
       (\<lambda>field. case strings_Split CHR ''='' field of [key, v] \<Rightarrow> Some (key, v) | _ \<Rightarrow> None)
       (strings_Split CHR '';'' h)"

definition fieldOf :: "bool \<Rightarrow> string \<Rightarrow> string option" where
  "fieldOf edgeMode key =
     (if key = ''Root'' then Some ''trace.trace_id''
      else if key = ''Self'' then Some ''trace.span_id''
      else if key = ''Parent'' then (if edgeMode then None else Some ''trace.parent_id'')
      else if key = ''Sampled'' then Some ''sampled''
      else Some key)"

definition applyPairs :: "bool \<Rightarrow> (string \<times> string) list \<Rightarrow> traceState \<Rightarrow> traceState" where
  "applyPairs edgeMode ps st = fold (\<lambda>(key, v). traceSwitch edgeMode key v) ps st"

text \<open>
  The fields of a list that hold a negative number in a data map, in the list's order, and
  the map that the loop over the list is shown to compute: every negative field deleted,
  and \<^verbatim>\<open>error\<close> naming the last of them.
\<close>

definition negativeFields :: "(string \<rightharpoonup> val) \<Rightarrow> string list \<Rightarrow> string list" where
  "negativeFields d fs = filter (\<lambda>g. negativeNumber (d g)) fs"

definition cleaned :: "string list \<Rightarrow> (string \<rightharpoonup> val) \<Rightarrow> (string \<rightharpoonup> val)" where
  "cleaned fs d k =
     (if k \<in> set fs then (if negativeNumber (d k) then None else d k)
      else if k = ''error'' \<and> negativeFields d fs \<noteq> []
      then Some (VString (timedOutMessage (last (negativeFields d fs))))
      else d k)"

text \<open>
  Two events for concrete evaluation: a CloudFront record with \<^verbatim>\<open>time_taken = -1\<close>, and a
  load balancer record with two negative processing times.
\<close>

definition ev_cf :: event where
  "ev_cf = \<lparr>Timestamp = 0, Data = [''time_taken'' \<mapsto> VInt64 (- 1)]\<rparr>"

definition ev_two :: event where
  "ev_two = \<lparr>Timestamp = 0,
     Data = [''backend_processing_time'' \<mapsto> VFloat64 (Finite (- 1)),
             ''response_processing_time'' \<mapsto> VInt64 (- 1),
             ''request_processing_time'' \<mapsto> VFloat64 (Finite 0.001)]\<rparr>"

text \<open>
  The fields that \<^verbatim>\<open>addTraceData\<close> itself assigns or deletes after the loop over the header.
\<close>

definition derivedFields :: "string list" where
  "derivedFields =
     [''trace.span_id'', ''duration_ms'', ''service_name'', ''name'', ''trace_id'',
      ''request.headers.x-amzn-trace-id'']"

text \<open>
  Two values of \<^verbatim>\<open>time.Parse(time.RFC3339Nano, s)\<close>, for concrete evaluation: half a
  millisecond and a quarter of a second after the epoch. No other string is used.
\<close>

definition rfc3339_sample :: "string \<Rightarrow> int option" where
  "rfc3339_sample s =
     (if s = ''1970-01-01T00:00:00.0005Z'' then Some 500000
      else if s = ''1970-01-01T00:00:00.25Z'' then Some 250000000
      else None)"

text \<open>
  Events for concrete evaluation: the header of the example in the source's comment, a
  header with a span id and a custom field, headers with a parent, a header with only a
  sampling flag, and two records whose response time is after their timestamp.
\<close>

definition ev_root :: event where
  "ev_root = \<lparr>Timestamp = 0,
     Data = [''trace_id'' \<mapsto> VString ''Root=1-5a88eced-40876ce050d010360bfb23bd'']\<rparr>"

definition ev_alb :: event where
  "ev_alb = \<lparr>Timestamp = 0,
     Data = [''trace_id'' \<mapsto> VString ''Root=r;Self=s;Sampled=1;app=x'']\<rparr>"

definition ev_parent_field :: event where
  "ev_parent_field = \<lparr>Timestamp = 0,
     Data = [''trace_id'' \<mapsto> VString ''Root=r;trace.parent_id=p'']\<rparr>"

definition ev_parent :: event where
  "ev_parent = \<lparr>Timestamp = 0,
     Data = [''trace_id'' \<mapsto> VString ''Root=r;Parent=p'']\<rparr>"

definition ev_sampled :: event where
  "ev_sampled = \<lparr>Timestamp = 0, Data = [''trace_id'' \<mapsto> VString ''Sampled=1'']\<rparr>"

definition ev_submilli :: event where
  "ev_submilli = \<lparr>Timestamp = 0,
     Data = [''trace_id'' \<mapsto> VString ''Root=r'',
             ''response_time'' \<mapsto> VString ''1970-01-01T00:00:00.0005Z'',
             ''request_processing_time'' \<mapsto> VFloat64 (Finite 0.001)]\<rparr>"

definition ev_quarter :: event where
  "ev_quarter = \<lparr>Timestamp = 0,
     Data = [''trace_id'' \<mapsto> VString ''Root=r'',
             ''response_time'' \<mapsto> VString ''1970-01-01T00:00:00.25Z'',
             ''request_processing_time'' \<mapsto> VFloat64 (Finite 0.001)]\<rparr>"

section \<open>Rounding keeps the sign\<close>

lemma floorlog_pow_le: "0 < n \<Longrightarrow> 2 ^ (floorlog 2 n - 53) \<le> n"
proof -
  assume n: "0 < n"
  have "(2::nat) ^ (floorlog 2 n - 53) \<le> 2 ^ (floorlog 2 n - 1)"
    by (rule power_increasing) auto
  also have "\<dots> \<le> n" using floorlog_bounds[of n 2] n by simp
  finally show ?thesis .
qed

lemma round53_small: "\<bar>i\<bar> < 2 ^ 53 \<Longrightarrow> round53 i = i"
  by (simp add: round53_def)

lemma round53_sign: "round53 i < 0 \<longleftrightarrow> i < 0"
proof (cases "\<bar>i\<bar> < 2 ^ 53")
  case True
  then show ?thesis by (simp add: round53_small)
next
  case False
  define a where "a = \<bar>i\<bar>"
  define e where "e = floorlog 2 (nat a) - 53"
  define q where "q = a div 2 ^ e"
  define q' where
    "q' = (if 2 ^ (e - 1) < a mod 2 ^ e \<or> (a mod 2 ^ e = 2 ^ (e - 1) \<and> odd q) then q + 1 else q)"
  have apos: "0 < a" using False by (simp add: a_def)
  have "(2::nat) ^ e \<le> nat a"
    unfolding e_def by (rule floorlog_pow_le) (use apos in simp)
  then have "int (2 ^ e) \<le> a" using apos by linarith
  then have le: "(2::int) ^ e \<le> a" by simp
  have "0 < q"
    unfolding q_def using le pos_imp_zdiv_pos_iff[of "2 ^ e" a] by simp
  then have "0 < q'" by (simp add: q'_def)
  then have pos: "0 < q' * 2 ^ e" by simp
  have eq: "round53 i = sgn i * (q' * 2 ^ e)"
    using False by (simp add: round53_def Let_def a_def e_def q_def q'_def)
  have "\<And>p::int. 0 < p \<Longrightarrow> (sgn i * p < 0) = (i < 0)"
    by (auto simp: sgn_if)
  from this[OF pos] show ?thesis
    unfolding eq .
qed

lemma tFloat_negative: "d f = Some t \<Longrightarrow> f64_lt_zero (tFloat t) = negativeNumber (d f)"
  by (cases t) (simp_all add: float64_of_int_def round53_sign)

lemma dropNegativeTime_eq:
  "dropNegativeTime f d =
     (if negativeNumber (d f)
      then (d(f := None))(''error'' \<mapsto> VString (timedOutMessage f))
      else d)"
  by (cases "d f") (simp_all add: dropNegativeTime_def tFloat_negative)

section \<open>The loop of dropNegativeTimes\<close>

lemma fold_dropNegativeTime:
  "distinct fs \<Longrightarrow> ''error'' \<notin> set fs \<Longrightarrow> fold dropNegativeTime fs d = cleaned fs d"
proof (induction fs rule: rev_induct)
  case Nil
  show ?case by (rule ext) (simp add: cleaned_def negativeFields_def)
next
  case (snoc f fs)
  then have IH: "fold dropNegativeTime fs d = cleaned fs d"
    and f: "f \<notin> set fs" "f \<noteq> ''error''" "''error'' \<notin> set fs" by auto
  have same: "cleaned fs d f = d f" using f by (simp add: cleaned_def)
  show ?case
  proof (rule ext)
    fix k
    show "fold dropNegativeTime (fs @ [f]) d k = cleaned (fs @ [f]) d k"
      using f by (auto simp: IH dropNegativeTime_eq same cleaned_def negativeFields_def)
  qed
qed

lemma timeFields_ok: "distinct timeFields \<and> ''error'' \<notin> set timeFields"
  by (simp add: timeFields_def)

lemma Data_dropNegativeTimes: "Data (dropNegativeTimes ev) = cleaned timeFields (Data ev)"
  by (simp add: dropNegativeTimes_def fold_dropNegativeTime timeFields_ok)

lemma negativeFields_Nil_iff: "negativeFields d fs = [] \<longleftrightarrow> (\<forall>g\<in>set fs. \<not> negativeNumber (d g))"
  by (simp add: negativeFields_def filter_empty_conv)

lemma cleaned_unchanged: "negativeFields d fs = [] \<Longrightarrow> cleaned fs d = d"
  by (rule ext) (auto simp: cleaned_def negativeFields_Nil_iff)

lemma last_negativeFields:
  "negativeNumber (d f) \<Longrightarrow> \<forall>g\<in>set post. \<not> negativeNumber (d g) \<Longrightarrow>
   negativeFields d (pre @ f # post) = negativeFields d pre @ [f]"
  by (simp add: negativeFields_def filter_empty_conv)

text \<open>
  Claim C1. For each of the four latency fields \<open>f\<close> (\<open>timeFields = pre @ f # post\<close>),
  \<^verbatim>\<open>dropNegativeTimes\<close> deletes \<open>f\<close> exactly when it is present with an \<^verbatim>\<open>int64\<close> or
  \<^verbatim>\<open>float64\<close> value that is strictly negative, and otherwise leaves it as it was. When it
  deletes \<open>f\<close>, the iteration for \<open>f\<close> leaves \<^verbatim>\<open>error\<close> set to the message naming \<open>f\<close>,
  and that message is the final one when no later field is negative. Afterwards \<open>f\<close>
  holds no negative number. With no negative latency field the event is unchanged; the
  timestamp and every field other than the four and \<^verbatim>\<open>error\<close> are never changed.
\<close>

theorem dropNegativeTimes_field:
  assumes "timeFields = pre @ f # post"
  shows "Data (dropNegativeTimes ev) f = (if negativeNumber (Data ev f) then None else Data ev f)
    \<and> (negativeNumber (Data ev f) \<longrightarrow>
          fold dropNegativeTime (pre @ [f]) (Data ev) ''error'' = Some (VString (timedOutMessage f)))
    \<and> (negativeNumber (Data ev f) \<and> (\<forall>g\<in>set post. \<not> negativeNumber (Data ev g)) \<longrightarrow>
          Data (dropNegativeTimes ev) ''error'' = Some (VString (timedOutMessage f)))
    \<and> \<not> negativeNumber (Data (dropNegativeTimes ev) f)
    \<and> ((\<forall>g\<in>set timeFields. \<not> negativeNumber (Data ev g)) \<longrightarrow> dropNegativeTimes ev = ev)
    \<and> (\<forall>k. k \<notin> set timeFields \<and> k \<noteq> ''error'' \<longrightarrow> Data (dropNegativeTimes ev) k = Data ev k)
    \<and> Timestamp (dropNegativeTimes ev) = Timestamp ev"
proof -
  have f: "f \<in> set timeFields" by (simp add: assms)
  have dist: "distinct (pre @ [f])" "''error'' \<notin> set (pre @ [f])"
    using timeFields_ok by (auto simp: assms)
  have 1: "Data (dropNegativeTimes ev) f = (if negativeNumber (Data ev f) then None else Data ev f)"
    using f by (simp add: Data_dropNegativeTimes cleaned_def)
  have 2: "fold dropNegativeTime (pre @ [f]) (Data ev) ''error'' = Some (VString (timedOutMessage f))"
    if "negativeNumber (Data ev f)"
    unfolding fold_dropNegativeTime[OF dist]
    using that dist by (simp add: cleaned_def negativeFields_def)
  have 3: "Data (dropNegativeTimes ev) ''error'' = Some (VString (timedOutMessage f))"
    if "negativeNumber (Data ev f)" "\<forall>g\<in>set post. \<not> negativeNumber (Data ev g)"
    using timeFields_ok last_negativeFields[OF that, of pre]
    by (simp add: Data_dropNegativeTimes cleaned_def assms[symmetric])
  have 4: "\<not> negativeNumber (Data (dropNegativeTimes ev) f)"
    by (simp add: 1)
  have 5: "dropNegativeTimes ev = ev" if "\<forall>g\<in>set timeFields. \<not> negativeNumber (Data ev g)"
    using that by (simp add: dropNegativeTimes_def fold_dropNegativeTime timeFields_ok
        cleaned_unchanged negativeFields_Nil_iff)
  have 6: "Data (dropNegativeTimes ev) k = Data ev k" if "k \<notin> set timeFields" "k \<noteq> ''error''" for k
    using that by (simp add: Data_dropNegativeTimes cleaned_def)
  have 7: "Timestamp (dropNegativeTimes ev) = Timestamp ev"
    by (simp add: dropNegativeTimes_def)
  from 1 2 3 4 5 6 7 show ?thesis by blast
qed

theorem dropNegativeTimes_field_witness:
  "timeFields = [''response_processing_time'', ''request_processing_time'', ''backend_processing_time'']
      @ ''time_taken'' # []
   \<and> Data (dropNegativeTimes ev_cf) ''time_taken'' = None
   \<and> Data (dropNegativeTimes ev_cf) ''error'' =
        Some (VString ''time_taken was -1 -- upstream server timed out, disconnected, or sent malformed response'')"
proof -
  have t: "timeFields = [''response_processing_time'', ''request_processing_time'', ''backend_processing_time'']
      @ ''time_taken'' # []"
    by (simp add: timeFields_def)
  show ?thesis
    using dropNegativeTimes_field[OF t, of ev_cf] t
    by (simp add: ev_cf_def timedOutMessage_def)
qed

text \<open>
  Claim C5. When two or more of the latency fields hold negative numbers, the \<^verbatim>\<open>error\<close>
  field after \<^verbatim>\<open>dropNegativeTimes\<close> is the message naming the last negative field in the
  order of \<^verbatim>\<open>timeFields\<close>: later fields overwrite the messages of earlier ones.
\<close>

theorem dropNegativeTimes_last_wins:
  assumes "2 \<le> length (negativeFields (Data ev) timeFields)"
  shows "Data (dropNegativeTimes ev) ''error'' =
           Some (VString (timedOutMessage (last (negativeFields (Data ev) timeFields))))
    \<and> last (negativeFields (Data ev) timeFields) \<in> set timeFields
    \<and> negativeNumber (Data ev (last (negativeFields (Data ev) timeFields)))"
proof -
  have ne: "negativeFields (Data ev) timeFields \<noteq> []" using assms by auto
  then have "last (negativeFields (Data ev) timeFields) \<in> set (negativeFields (Data ev) timeFields)"
    by simp
  then have "last (negativeFields (Data ev) timeFields) \<in> set timeFields
    \<and> negativeNumber (Data ev (last (negativeFields (Data ev) timeFields)))"
    unfolding negativeFields_def by simp
  moreover have "Data (dropNegativeTimes ev) ''error'' =
           Some (VString (timedOutMessage (last (negativeFields (Data ev) timeFields))))"
    using ne timeFields_ok by (simp add: Data_dropNegativeTimes cleaned_def)
  ultimately show ?thesis by simp
qed

theorem dropNegativeTimes_last_wins_witness:
  "2 \<le> length (negativeFields (Data ev_two) timeFields)
   \<and> Data (dropNegativeTimes ev_two) ''error'' =
        Some (VString ''backend_processing_time was -1 -- upstream server timed out, disconnected, or sent malformed response'')"
proof -
  have n: "negativeFields (Data ev_two) timeFields = [''response_processing_time'', ''backend_processing_time'']"
    by (simp add: negativeFields_def timeFields_def ev_two_def)
  have t: "2 \<le> length (negativeFields (Data ev_two) timeFields)"
    by (simp add: n)
  show ?thesis
    using dropNegativeTimes_last_wins[OF t] t
    by (simp add: n timedOutMessage_def)
qed


section \<open>The loop of addTraceData\<close>

lemma fold_traceField:
  "fold (traceField em) fs st =
   applyPairs em (List.map_filter
       (\<lambda>field. case strings_Split CHR ''='' field of [key, v] \<Rightarrow> Some (key, v) | _ \<Rightarrow> None) fs) st"
proof (induction fs arbitrary: st)
  case Nil
  show ?case by (simp add: applyPairs_def map_filter_simps)
next
  case (Cons f fs)
  show ?case
    using Cons.IH
    by (simp add: applyPairs_def map_filter_simps traceField_def split: list.splits)
qed

lemma traceFields_pairs: "traceFields em h d = applyPairs em (kvPairs h) (d, True)"
  by (simp add: traceFields_def kvPairs_def fold_traceField)

lemma traceSwitch_eq:
  "traceSwitch em k v (d, r) =
     ((case fieldOf em k of None \<Rightarrow> d | Some x \<Rightarrow> d(x \<mapsto> VString v)),
      r \<and> k \<noteq> ''Self'' \<and> (k = ''Parent'' \<longrightarrow> em))"
  by (simp add: traceSwitch_def fieldOf_def)

lemma applyPairs_Nil: "applyPairs em [] st = st"
  by (simp add: applyPairs_def)

lemma applyPairs_Cons: "applyPairs em ((k, v) # ps) st = applyPairs em ps (traceSwitch em k v st)"
  by (simp add: applyPairs_def)

lemma applyPairs_append: "applyPairs em (ps @ qs) st = applyPairs em qs (applyPairs em ps st)"
  by (simp add: applyPairs_def)

lemma applyPairs_untouched:
  "\<forall>(k, v)\<in>set ps. fieldOf em k \<noteq> Some x \<Longrightarrow> fst (applyPairs em ps (d, r)) x = d x"
proof (induction ps arbitrary: d r)
  case Nil
  show ?case by (simp add: applyPairs_Nil)
next
  case (Cons p ps)
  obtain k v where p: "p = (k, v)" by (cases p)
  from Cons.prems have k: "fieldOf em k \<noteq> Some x"
    and rest: "\<forall>(k, v)\<in>set ps. fieldOf em k \<noteq> Some x" by (auto simp: p)
  show ?case
    unfolding p applyPairs_Cons traceSwitch_eq
    using k by (simp add: Cons.IH[OF rest] split: option.splits)
qed

lemma applyPairs_root:
  "snd (applyPairs em ps (d, r)) = (r \<and> (\<forall>(k, v)\<in>set ps. k \<noteq> ''Self'' \<and> (k = ''Parent'' \<longrightarrow> em)))"
proof (induction ps arbitrary: d r)
  case Nil
  show ?case by (simp add: applyPairs_Nil)
next
  case (Cons p ps)
  obtain k v where p: "p = (k, v)" by (cases p)
  show ?case
    unfolding p applyPairs_Cons traceSwitch_eq
    by (simp add: Cons.IH)
qed

lemma applyPairs_snoc:
  "fieldOf em k = Some x \<Longrightarrow> fst (applyPairs em (pre @ [(k, v)]) st) x = Some (VString v)"
  by (cases "applyPairs em pre st")
     (simp add: applyPairs_append applyPairs_Cons applyPairs_Nil traceSwitch_eq)

lemma applyPairs_last:
  assumes "fieldOf em k = Some x" and "\<forall>(k', v')\<in>set post. fieldOf em k' \<noteq> Some x"
  shows "fst (applyPairs em (pre @ (k, v) # post) st) x = Some (VString v)"
proof -
  obtain d r where s: "applyPairs em (pre @ [(k, v)]) st = (d, r)"
    by (cases "applyPairs em (pre @ [(k, v)]) st")
  have "applyPairs em (pre @ (k, v) # post) st = applyPairs em post (applyPairs em (pre @ [(k, v)]) st)"
    using applyPairs_append[of em "pre @ [(k, v)]" post st] by simp
  then have "fst (applyPairs em (pre @ (k, v) # post) st) x = fst (applyPairs em post (d, r)) x"
    by (simp only: s)
  also have "\<dots> = d x" by (rule applyPairs_untouched[OF assms(2)])
  also have "\<dots> = Some (VString v)"
    using applyPairs_snoc[OF assms(1), of pre v st] by (simp add: s)
  finally show ?thesis .
qed

lemma addTraceData_string:
  assumes "Data ev ''trace_id'' = Some (VString h)"
  shows "addTraceData tp ev em =
     (case rootSpanID (applyPairs em (kvPairs h) (Data ev, True)) of
        Inl p \<Rightarrow> Inl p
      | Inr d \<Rightarrow>
          Inr (ev\<lparr>Data := renameTraceHeader h
                 (addName (addServiceName (addDuration tp (Timestamp ev) d)))\<rparr>))"
  by (simp add: addTraceData_def assms traceFields_pairs)

lemma addTraceData_no_string:
  assumes "\<forall>h. Data ev ''trace_id'' \<noteq> Some (VString h)"
  shows "addTraceData tp ev em = Inr ev"
  using assms by (simp add: addTraceData_def split: option.splits val.splits)

lemma derived_other:
  assumes "x \<noteq> ''duration_ms''" "x \<noteq> ''service_name''" "x \<noteq> ''name''" "x \<noteq> ''trace_id''"
    "x \<noteq> ''request.headers.x-amzn-trace-id''"
  shows "renameTraceHeader h (addName (addServiceName (addDuration tp ts d))) x = d x"
  using assms
  by (simp add: renameTraceHeader_def addName_def addServiceName_def addDuration_def Let_def
      split: option.splits val.splits)

lemma derived_trace_id:
  "renameTraceHeader h d ''trace_id'' = None"
  "renameTraceHeader h d ''request.headers.x-amzn-trace-id'' = Some (VString h)"
  by (simp_all add: renameTraceHeader_def)

lemma derived_duration:
  "renameTraceHeader h (addName (addServiceName (addDuration tp ts d))) ''duration_ms'' =
     (if f64_gt_zero (durationMs tp ts d) then Some (VFloat64 (durationMs tp ts d))
      else d ''duration_ms'')"
  by (simp add: renameTraceHeader_def addName_def addServiceName_def addDuration_def Let_def
      split: option.splits val.splits)

lemma rootSpanID_Inr:
  assumes "rootSpanID (d, r) = Inr d'"
  shows "d' x = (if r \<and> x = ''trace.span_id'' then d ''trace.trace_id'' else d x)"
    and "r \<Longrightarrow> \<exists>t. d ''trace.trace_id'' = Some (VString t)"
  using assms by (auto simp: rootSpanID_def split: if_splits option.splits val.splits)

lemma rootSpanID_Inl:
  "rootSpanID (d, r) = Inl p \<longleftrightarrow>
     p = InterfaceConversion \<and> r \<and> (\<forall>t. d ''trace.trace_id'' \<noteq> Some (VString t))"
  by (auto simp: rootSpanID_def split: if_splits option.splits val.splits)

lemma rootSpanID_total:
  assumes "snd st \<longrightarrow> (\<exists>t. fst st ''trace.trace_id'' = Some (VString t))"
  shows "\<exists>d. rootSpanID st = Inr d"
  using assms by (cases st) (auto simp: rootSpanID_def)

text \<open>The data of the result, field by field, from the state the loop ends in.\<close>

lemma addTraceData_result:
  assumes h: "Data ev ''trace_id'' = Some (VString h)"
    and ok: "addTraceData tp ev em = Inr ev'"
    and st: "applyPairs em (kvPairs h) (Data ev, True) = (d, r)"
  shows "x \<notin> set derivedFields \<Longrightarrow> Data ev' x = d x"
    and "Data ev' ''trace.span_id'' = (if r then d ''trace.trace_id'' else d ''trace.span_id'')"
    and "r \<Longrightarrow> \<exists>t. d ''trace.trace_id'' = Some (VString t)"
    and "Data ev' ''trace_id'' = None"
    and "Data ev' ''request.headers.x-amzn-trace-id'' = Some (VString h)"
    and "Timestamp ev' = Timestamp ev"
proof -
  from ok obtain d' where d': "rootSpanID (d, r) = Inr d'"
    and ev': "ev' = ev\<lparr>Data := renameTraceHeader h
                 (addName (addServiceName (addDuration tp (Timestamp ev) d')))\<rparr>"
    by (auto simp: addTraceData_string[OF h] st split: sum.splits)
  show "Data ev' x = d x" if "x \<notin> set derivedFields"
    using that by (simp add: ev' derived_other rootSpanID_Inr(1)[OF d'] derivedFields_def)
  show "Data ev' ''trace.span_id'' = (if r then d ''trace.trace_id'' else d ''trace.span_id'')"
    by (simp add: ev' derived_other rootSpanID_Inr(1)[OF d'])
  show "\<exists>t. d ''trace.trace_id'' = Some (VString t)" if r
    using rootSpanID_Inr(2)[OF d' that] .
  show "Data ev' ''trace_id'' = None"
    by (simp add: ev' derived_trace_id)
  show "Data ev' ''request.headers.x-amzn-trace-id'' = Some (VString h)"
    by (simp add: ev' derived_trace_id)
  show "Timestamp ev' = Timestamp ev"
    by (simp add: ev')
qed

lemma fieldOf_simps:
  "fieldOf em ''Root'' = Some ''trace.trace_id''"
  "fieldOf em ''Self'' = Some ''trace.span_id''"
  "fieldOf em ''Sampled'' = Some ''sampled''"
  "fieldOf False ''Parent'' = Some ''trace.parent_id''"
  "fieldOf True ''Parent'' = None"
  "k \<noteq> ''Root'' \<Longrightarrow> k \<noteq> ''Self'' \<Longrightarrow> k \<noteq> ''Parent'' \<Longrightarrow> k \<noteq> ''Sampled'' \<Longrightarrow> fieldOf em k = Some k"
  by (simp_all add: fieldOf_def)

lemma final_of_last:
  assumes h: "Data ev ''trace_id'' = Some (VString h)"
    and ok: "addTraceData tp ev em = Inr ev'"
    and ps: "kvPairs h = pre @ (k, v) # post"
    and k: "fieldOf em k = Some x"
    and post: "\<forall>(k', v')\<in>set post. fieldOf em k' \<noteq> Some x"
    and x: "x \<notin> set derivedFields"
  shows "Data ev' x = Some (VString v)"
proof -
  obtain d r where st: "applyPairs em (kvPairs h) (Data ev, True) = (d, r)"
    by (cases "applyPairs em (kvPairs h) (Data ev, True)")
  have "d x = Some (VString v)"
    using applyPairs_last[OF k post, of pre v "(Data ev, True)"] by (simp add: ps[symmetric] st)
  then show ?thesis
    using addTraceData_result(1)[OF h ok st x] by simp
qed

lemma root_after_Self:
  "\<not> snd (applyPairs em (pre @ (''Self'', S) # post) (d, True))"
  by (simp add: applyPairs_root)

lemma addTraceData_returns:
  assumes h: "Data ev ''trace_id'' = Some (VString h)"
    and r: "snd (applyPairs em (kvPairs h) (Data ev, True)) \<longrightarrow>
      (\<exists>t. fst (applyPairs em (kvPairs h) (Data ev, True)) ''trace.trace_id'' = Some (VString t))"
  shows "\<exists>ev'. addTraceData tp ev em = Inr ev'"
proof -
  obtain d b where st: "applyPairs em (kvPairs h) (Data ev, True) = (d, b)"
    by (cases "applyPairs em (kvPairs h) (Data ev, True)")
  show ?thesis
  proof (cases "rootSpanID (d, b)")
    case (Inl p)
    then show ?thesis using r by (simp add: rootSpanID_Inl st)
  next
    case (Inr d')
    then show ?thesis by (simp add: addTraceData_string[OF h] st)
  qed
qed

lemma edge_Parent_noop: "traceSwitch True ''Parent'' v st = st"
  by (cases st) (simp add: traceSwitch_def)

lemma kvPairs_alb:
  "kvPairs ''Root=r;Self=s;Sampled=1;app=x'' =
     [(''Root'', ''r''), (''Self'', ''s''), (''Sampled'', ''1''), (''app'', ''x'')]"
  by (simp add: kvPairs_def map_filter_simps)

lemma kvPairs_root:
  "kvPairs ''Root=1-5a88eced-40876ce050d010360bfb23bd'' =
     [(''Root'', ''1-5a88eced-40876ce050d010360bfb23bd'')]"
  by (simp add: kvPairs_def map_filter_simps)

lemma kvPairs_samples:
  "kvPairs ''Root=r;trace.parent_id=p'' = [(''Root'', ''r''), (''trace.parent_id'', ''p'')]"
  "kvPairs ''Root=r;Parent=p'' = [(''Root'', ''r''), (''Parent'', ''p'')]"
  "kvPairs ''Sampled=1'' = [(''Sampled'', ''1'')]"
  by (simp_all add: kvPairs_def map_filter_simps)

lemma kvPairs_r: "kvPairs ''Root=r'' = [(''Root'', ''r'')]"
  by (simp add: kvPairs_def map_filter_simps)

lemma time_Sub_bounds: "- (2 ^ 63) \<le> time_Sub t u \<and> time_Sub t u \<le> 2 ^ 63 - 1"
  by (simp add: time_Sub_def Let_def)

lemma time_Sub_ge: "u + Millisecond \<le> t \<Longrightarrow> Millisecond \<le> time_Sub t u"
  by (simp add: time_Sub_def Let_def Millisecond_def)

lemma time_Sub_lt: "t < u + Millisecond \<Longrightarrow> time_Sub t u < Millisecond"
  by (simp add: time_Sub_def Let_def Millisecond_def)

lemma go_quot_pos: "0 \<le> a \<Longrightarrow> 0 < b \<Longrightarrow> go_quot a b = a div b"
  by (cases "a = 0") (simp_all add: go_quot_def sgn_if)

lemma whole_ms:
  assumes "Millisecond \<le> a" "a \<le> 2 ^ 63 - 1"
  shows "float64_of_int (go_quot a Millisecond) = Finite (real_of_int (a div Millisecond))"
    and "1 \<le> a div Millisecond"
proof -
  have q: "go_quot a Millisecond = a div Millisecond"
    using assms by (intro go_quot_pos) (simp_all add: Millisecond_def)
  have lo: "1 \<le> a div Millisecond"
    using assms(1) by (simp add: Millisecond_def pos_imp_zdiv_pos_iff int_one_le_iff_zero_less)
  have "a div Millisecond \<le> (2 ^ 63 - 1) div Millisecond"
    using assms(2) by (intro zdiv_mono1) (simp_all add: Millisecond_def)
  then have hi: "a div Millisecond < 2 ^ 53"
    by (simp add: Millisecond_def)
  from lo hi have "\<bar>a div Millisecond\<bar> < 2 ^ 53" by simp
  then show "float64_of_int (go_quot a Millisecond) = Finite (real_of_int (a div Millisecond))"
    by (simp add: float64_of_int_def q round53_small)
  show "1 \<le> a div Millisecond" by (rule lo)
qed

lemma sub_ms:
  assumes "0 < a" "a < Millisecond"
  shows "float64_of_int (go_quot a Millisecond) = Finite 0"
proof -
  have "go_quot a Millisecond = a div Millisecond"
    using assms by (intro go_quot_pos) (simp_all add: Millisecond_def)
  also have "\<dots> = 0" using assms by (simp add: div_pos_pos_trivial)
  finally show ?thesis by (simp add: float64_of_int_def round53_small)
qed

lemma durationMs_response:
  assumes "d ''response_time'' = Some (VString s)" "tp s = Some tm" "ts + Millisecond \<le> tm"
  shows "durationMs tp ts d = Finite (real_of_int (time_Sub tm ts div Millisecond))"
proof -
  have a: "Millisecond \<le> time_Sub tm ts" using assms(3) by (rule time_Sub_ge)
  then have pos: "0 < time_Sub tm ts" by (simp add: Millisecond_def)
  have b: "time_Sub tm ts \<le> 2 ^ 63 - 1" using time_Sub_bounds by simp
  have "responseDuration tp ts d = Finite (real_of_int (time_Sub tm ts div Millisecond))"
    using pos by (simp add: responseDuration_def assms(1,2) whole_ms(1)[OF a b] Let_def)
  moreover have "\<not> f64_eq_zero (Finite (real_of_int (time_Sub tm ts div Millisecond)))"
    using whole_ms(2)[OF a b] by simp
  ultimately show ?thesis by (simp add: durationMs_def Let_def)
qed

lemma durationMs_fallback:
  assumes "\<forall>s tm. d ''response_time'' = Some (VString s) \<and> tp s = Some tm \<longrightarrow> tm < ts + Millisecond"
  shows "durationMs tp ts d =
     (case d ''request_processing_time'' of Some (VFloat64 t) \<Rightarrow> t | _ \<Rightarrow> Finite 0)"
proof -
  have "responseDuration tp ts d = Finite 0"
  proof (cases "\<exists>s tm. d ''response_time'' = Some (VString s) \<and> tp s = Some tm")
    case True
    then obtain s tm where s: "d ''response_time'' = Some (VString s)" "tp s = Some tm" by blast
    with assms have "tm < ts + Millisecond" by blast
    then have lt: "time_Sub tm ts < Millisecond" by (rule time_Sub_lt)
    show ?thesis
      using lt by (simp add: responseDuration_def s sub_ms Let_def)
  next
    case False
    then show ?thesis
      by (auto simp: responseDuration_def split: option.splits val.splits)
  qed
  then show ?thesis by (simp add: durationMs_def Let_def)
qed

lemma cleaned_idem:
  assumes "distinct fs" "''error'' \<notin> set fs"
  shows "cleaned fs (cleaned fs d) = cleaned fs d"
proof -
  have "negativeFields (cleaned fs d) fs = []"
    by (simp add: negativeFields_Nil_iff cleaned_def)
  then show ?thesis by (rule cleaned_unchanged)
qed

section \<open>Properties of addTraceData\<close>

text \<open>
  Claim C2. Let the \<^verbatim>\<open>trace_id\<close> field be the string \<open>h\<close>, and let \<^verbatim>\<open>addTraceData\<close> not be in
  the panic of claim C9 (a root span whose trace id is not a string). Then it returns, and
  for the pairs \<open>key=value\<close> of \<open>h\<close>: the loop, having handled a pair \<^verbatim>\<open>Root=R\<close>, has set
  \<^verbatim>\<open>trace.trace_id\<close> to \<open>R\<close>; having handled \<^verbatim>\<open>Self=S\<close> it has set \<^verbatim>\<open>trace.span_id\<close> to \<open>S\<close>
  and \<^verbatim>\<open>rootSpan\<close> is false from then on; \<^verbatim>\<open>Sampled=v\<close> sets \<^verbatim>\<open>sampled\<close>, and a pair with any other
  key sets the field of that name. Each of these values is in the result when no later
  pair is stored under the same field (and, for another key, when \<^verbatim>\<open>addTraceData\<close> does not
  itself assign the field afterwards). With no \<^verbatim>\<open>Self\<close> pair and no \<^verbatim>\<open>Parent\<close> pair taking
  effect the event is a root span and \<^verbatim>\<open>trace.span_id\<close> equals the trace id. The field
  \<^verbatim>\<open>trace_id\<close> is deleted and \<open>h\<close> is kept under \<^verbatim>\<open>request.headers.x-amzn-trace-id\<close>.
\<close>

theorem addTraceData_header:
  assumes h: "Data ev ''trace_id'' = Some (VString h)"
    and ret: "snd (traceFields em h (Data ev)) \<longrightarrow>
      (\<exists>t. fst (traceFields em h (Data ev)) ''trace.trace_id'' = Some (VString t))"
  shows "\<exists>ev'. addTraceData tp ev em = Inr ev'
    \<and> (\<forall>pre R post. kvPairs h = pre @ (''Root'', R) # post \<longrightarrow>
            fst (applyPairs em (pre @ [(''Root'', R)]) (Data ev, True)) ''trace.trace_id'' = Some (VString R)
          \<and> ((\<forall>(k', v')\<in>set post. fieldOf em k' \<noteq> Some ''trace.trace_id'') \<longrightarrow>
                Data ev' ''trace.trace_id'' = Some (VString R)))
    \<and> (\<forall>pre S post. kvPairs h = pre @ (''Self'', S) # post \<longrightarrow>
            fst (applyPairs em (pre @ [(''Self'', S)]) (Data ev, True)) ''trace.span_id'' = Some (VString S)
          \<and> \<not> snd (applyPairs em (pre @ [(''Self'', S)]) (Data ev, True))
          \<and> \<not> snd (traceFields em h (Data ev))
          \<and> ((\<forall>(k', v')\<in>set post. fieldOf em k' \<noteq> Some ''trace.span_id'') \<longrightarrow>
                Data ev' ''trace.span_id'' = Some (VString S)))
    \<and> ((\<forall>(k, v)\<in>set (kvPairs h). k \<noteq> ''Self'' \<and> (k = ''Parent'' \<longrightarrow> em)) \<longrightarrow>
            snd (traceFields em h (Data ev))
          \<and> Data ev' ''trace.span_id'' = Data ev' ''trace.trace_id''
          \<and> (\<exists>t. Data ev' ''trace.trace_id'' = Some (VString t)))
    \<and> (\<forall>pre v post. kvPairs h = pre @ (''Sampled'', v) # post \<longrightarrow>
            fst (applyPairs em (pre @ [(''Sampled'', v)]) (Data ev, True)) ''sampled'' = Some (VString v)
          \<and> ((\<forall>(k', v')\<in>set post. fieldOf em k' \<noteq> Some ''sampled'') \<longrightarrow>
                Data ev' ''sampled'' = Some (VString v)))
    \<and> (\<forall>pre k v post. kvPairs h = pre @ (k, v) # post
            \<and> k \<noteq> ''Root'' \<and> k \<noteq> ''Self'' \<and> k \<noteq> ''Parent'' \<and> k \<noteq> ''Sampled'' \<longrightarrow>
            fst (applyPairs em (pre @ [(k, v)]) (Data ev, True)) k = Some (VString v)
          \<and> ((\<forall>(k', v')\<in>set post. fieldOf em k' \<noteq> Some k) \<and> k \<notin> set derivedFields \<longrightarrow>
                Data ev' k = Some (VString v)))
    \<and> Data ev' ''trace_id'' = None
    \<and> Data ev' ''request.headers.x-amzn-trace-id'' = Some (VString h)"
proof -
  from addTraceData_returns[OF h] ret obtain ev' where ok: "addTraceData tp ev em = Inr ev'"
    by (auto simp: traceFields_pairs)
  obtain d r where st: "applyPairs em (kvPairs h) (Data ev, True) = (d, r)"
    by (cases "applyPairs em (kvPairs h) (Data ev, True)")
  note res = addTraceData_result[OF h ok st]
  have nd: "''trace.trace_id'' \<notin> set derivedFields" "''sampled'' \<notin> set derivedFields"
    by (simp_all add: derivedFields_def)
  have Root: "fst (applyPairs em (pre @ [(''Root'', R)]) (Data ev, True)) ''trace.trace_id'' = Some (VString R)
          \<and> ((\<forall>(k', v')\<in>set post. fieldOf em k' \<noteq> Some ''trace.trace_id'') \<longrightarrow>
                Data ev' ''trace.trace_id'' = Some (VString R))"
    if "kvPairs h = pre @ (''Root'', R) # post" for pre R post
    using applyPairs_snoc[OF fieldOf_simps(1)] final_of_last[OF h ok that fieldOf_simps(1) _ nd(1)]
    by blast
  have Sampled: "fst (applyPairs em (pre @ [(''Sampled'', v)]) (Data ev, True)) ''sampled'' = Some (VString v)
          \<and> ((\<forall>(k', v')\<in>set post. fieldOf em k' \<noteq> Some ''sampled'') \<longrightarrow>
                Data ev' ''sampled'' = Some (VString v))"
    if "kvPairs h = pre @ (''Sampled'', v) # post" for pre v post
    using applyPairs_snoc[OF fieldOf_simps(3)] final_of_last[OF h ok that fieldOf_simps(3) _ nd(2)]
    by blast
  have Other: "fst (applyPairs em (pre @ [(k, v)]) (Data ev, True)) k = Some (VString v)
          \<and> ((\<forall>(k', v')\<in>set post. fieldOf em k' \<noteq> Some k) \<and> k \<notin> set derivedFields \<longrightarrow>
                Data ev' k = Some (VString v))"
    if "kvPairs h = pre @ (k, v) # post"
      "k \<noteq> ''Root''" "k \<noteq> ''Self''" "k \<noteq> ''Parent''" "k \<noteq> ''Sampled''" for pre k v post
  proof -
    have fk: "fieldOf em k = Some k" using that(2-5) by (rule fieldOf_simps(6))
    show ?thesis
      using applyPairs_snoc[OF fk] final_of_last[OF h ok that(1) fk] by blast
  qed
  have Self: "fst (applyPairs em (pre @ [(''Self'', S)]) (Data ev, True)) ''trace.span_id'' = Some (VString S)
          \<and> \<not> snd (applyPairs em (pre @ [(''Self'', S)]) (Data ev, True))
          \<and> \<not> snd (traceFields em h (Data ev))
          \<and> ((\<forall>(k', v')\<in>set post. fieldOf em k' \<noteq> Some ''trace.span_id'') \<longrightarrow>
                Data ev' ''trace.span_id'' = Some (VString S))"
    if ps: "kvPairs h = pre @ (''Self'', S) # post" for pre S post
  proof -
    have r: "\<not> r" using root_after_Self[of em pre S post "Data ev"] by (simp add: ps[symmetric] st)
    have 1: "\<not> snd (applyPairs em (pre @ [(''Self'', S)]) (Data ev, True))"
      using root_after_Self[of em pre S "[]" "Data ev"] by simp
    have 2: "\<not> snd (traceFields em h (Data ev))"
      using r by (simp add: traceFields_pairs st)
    have 3: "Data ev' ''trace.span_id'' = Some (VString S)"
      if "\<forall>(k', v')\<in>set post. fieldOf em k' \<noteq> Some ''trace.span_id''"
      using applyPairs_last[OF fieldOf_simps(2) that, of pre S "(Data ev, True)"] res(2) r
      by (simp add: ps[symmetric] st)
    show ?thesis
      using applyPairs_snoc[OF fieldOf_simps(2)] 1 2 3 by blast
  qed
  have RootSpan: "snd (traceFields em h (Data ev))
          \<and> Data ev' ''trace.span_id'' = Data ev' ''trace.trace_id''
          \<and> (\<exists>t. Data ev' ''trace.trace_id'' = Some (VString t))"
    if "\<forall>(k, v)\<in>set (kvPairs h). k \<noteq> ''Self'' \<and> (k = ''Parent'' \<longrightarrow> em)"
  proof -
    have r: r using applyPairs_root[of em "kvPairs h" "Data ev" True] that by (simp add: st)
    show ?thesis
      using r res(1)[OF nd(1)] res(2) res(3) by (simp add: traceFields_pairs st)
  qed
  from Root Self RootSpan Sampled Other res(4) res(5)
  have "(\<forall>pre R post. kvPairs h = pre @ (''Root'', R) # post \<longrightarrow>
            fst (applyPairs em (pre @ [(''Root'', R)]) (Data ev, True)) ''trace.trace_id'' = Some (VString R)
          \<and> ((\<forall>(k', v')\<in>set post. fieldOf em k' \<noteq> Some ''trace.trace_id'') \<longrightarrow>
                Data ev' ''trace.trace_id'' = Some (VString R)))
    \<and> (\<forall>pre S post. kvPairs h = pre @ (''Self'', S) # post \<longrightarrow>
            fst (applyPairs em (pre @ [(''Self'', S)]) (Data ev, True)) ''trace.span_id'' = Some (VString S)
          \<and> \<not> snd (applyPairs em (pre @ [(''Self'', S)]) (Data ev, True))
          \<and> \<not> snd (traceFields em h (Data ev))
          \<and> ((\<forall>(k', v')\<in>set post. fieldOf em k' \<noteq> Some ''trace.span_id'') \<longrightarrow>
                Data ev' ''trace.span_id'' = Some (VString S)))
    \<and> ((\<forall>(k, v)\<in>set (kvPairs h). k \<noteq> ''Self'' \<and> (k = ''Parent'' \<longrightarrow> em)) \<longrightarrow>
            snd (traceFields em h (Data ev))
          \<and> Data ev' ''trace.span_id'' = Data ev' ''trace.trace_id''
          \<and> (\<exists>t. Data ev' ''trace.trace_id'' = Some (VString t)))
    \<and> (\<forall>pre v post. kvPairs h = pre @ (''Sampled'', v) # post \<longrightarrow>
            fst (applyPairs em (pre @ [(''Sampled'', v)]) (Data ev, True)) ''sampled'' = Some (VString v)
          \<and> ((\<forall>(k', v')\<in>set post. fieldOf em k' \<noteq> Some ''sampled'') \<longrightarrow>
                Data ev' ''sampled'' = Some (VString v)))
    \<and> (\<forall>pre k v post. kvPairs h = pre @ (k, v) # post
            \<and> k \<noteq> ''Root'' \<and> k \<noteq> ''Self'' \<and> k \<noteq> ''Parent'' \<and> k \<noteq> ''Sampled'' \<longrightarrow>
            fst (applyPairs em (pre @ [(k, v)]) (Data ev, True)) k = Some (VString v)
          \<and> ((\<forall>(k', v')\<in>set post. fieldOf em k' \<noteq> Some k) \<and> k \<notin> set derivedFields \<longrightarrow>
                Data ev' k = Some (VString v)))
    \<and> Data ev' ''trace_id'' = None
    \<and> Data ev' ''request.headers.x-amzn-trace-id'' = Some (VString h)"
    by (intro conjI allI impI) blast+
  with ok show ?thesis by blast
qed

theorem addTraceData_header_witness:
  "Data ev_alb ''trace_id'' = Some (VString ''Root=r;Self=s;Sampled=1;app=x'')
   \<and> (\<exists>ev'. addTraceData rfc3339_sample ev_alb False = Inr ev'
        \<and> Data ev' ''trace.trace_id'' = Some (VString ''r'')
        \<and> Data ev' ''trace.span_id'' = Some (VString ''s'')
        \<and> Data ev' ''sampled'' = Some (VString ''1'')
        \<and> Data ev' ''app'' = Some (VString ''x'')
        \<and> Data ev' ''trace_id'' = None
        \<and> Data ev' ''request.headers.x-amzn-trace-id'' =
             Some (VString ''Root=r;Self=s;Sampled=1;app=x''))
   \<and> Data ev_root ''trace_id'' = Some (VString ''Root=1-5a88eced-40876ce050d010360bfb23bd'')
   \<and> (\<exists>ev'. addTraceData rfc3339_sample ev_root False = Inr ev'
        \<and> Data ev' ''trace.trace_id'' = Some (VString ''1-5a88eced-40876ce050d010360bfb23bd'')
        \<and> Data ev' ''trace.span_id'' = Some (VString ''1-5a88eced-40876ce050d010360bfb23bd''))"
proof -
  have hd: "Data ev_alb ''trace_id'' = Some (VString ''Root=r;Self=s;Sampled=1;app=x'')"
    by (simp add: ev_alb_def)
  have rt: "snd (traceFields False ''Root=r;Self=s;Sampled=1;app=x'' (Data ev_alb)) \<longrightarrow>
      (\<exists>t. fst (traceFields False ''Root=r;Self=s;Sampled=1;app=x'' (Data ev_alb)) ''trace.trace_id''
            = Some (VString t))"
    by (simp add: traceFields_pairs applyPairs_root kvPairs_alb)
  from addTraceData_header[OF hd rt, of rfc3339_sample]
  obtain ev' where ok: "addTraceData rfc3339_sample ev_alb False = Inr ev'"
    and 1: "\<forall>pre R post. kvPairs ''Root=r;Self=s;Sampled=1;app=x'' = pre @ (''Root'', R) # post \<longrightarrow>
            fst (applyPairs False (pre @ [(''Root'', R)]) (Data ev_alb, True)) ''trace.trace_id'' = Some (VString R)
          \<and> ((\<forall>(k', v')\<in>set post. fieldOf False k' \<noteq> Some ''trace.trace_id'') \<longrightarrow>
                Data ev' ''trace.trace_id'' = Some (VString R))"
    and 2: "\<forall>pre S post. kvPairs ''Root=r;Self=s;Sampled=1;app=x'' = pre @ (''Self'', S) # post \<longrightarrow>
            fst (applyPairs False (pre @ [(''Self'', S)]) (Data ev_alb, True)) ''trace.span_id'' = Some (VString S)
          \<and> \<not> snd (applyPairs False (pre @ [(''Self'', S)]) (Data ev_alb, True))
          \<and> \<not> snd (traceFields False ''Root=r;Self=s;Sampled=1;app=x'' (Data ev_alb))
          \<and> ((\<forall>(k', v')\<in>set post. fieldOf False k' \<noteq> Some ''trace.span_id'') \<longrightarrow>
                Data ev' ''trace.span_id'' = Some (VString S))"
    and 3: "\<forall>pre v post. kvPairs ''Root=r;Self=s;Sampled=1;app=x'' = pre @ (''Sampled'', v) # post \<longrightarrow>
            fst (applyPairs False (pre @ [(''Sampled'', v)]) (Data ev_alb, True)) ''sampled'' = Some (VString v)
          \<and> ((\<forall>(k', v')\<in>set post. fieldOf False k' \<noteq> Some ''sampled'') \<longrightarrow>
                Data ev' ''sampled'' = Some (VString v))"
    and 4: "\<forall>pre k v post. kvPairs ''Root=r;Self=s;Sampled=1;app=x'' = pre @ (k, v) # post
            \<and> k \<noteq> ''Root'' \<and> k \<noteq> ''Self'' \<and> k \<noteq> ''Parent'' \<and> k \<noteq> ''Sampled'' \<longrightarrow>
            fst (applyPairs False (pre @ [(k, v)]) (Data ev_alb, True)) k = Some (VString v)
          \<and> ((\<forall>(k', v')\<in>set post. fieldOf False k' \<noteq> Some k) \<and> k \<notin> set derivedFields \<longrightarrow>
                Data ev' k = Some (VString v))"
    and 5: "Data ev' ''trace_id'' = None"
    and 6: "Data ev' ''request.headers.x-amzn-trace-id'' = Some (VString ''Root=r;Self=s;Sampled=1;app=x'')"
    by blast
  have a: "Data ev' ''trace.trace_id'' = Some (VString ''r'')"
    using 1[rule_format, of "[]" "''r''"]
    by (simp add: kvPairs_alb fieldOf_def)
  have b: "Data ev' ''trace.span_id'' = Some (VString ''s'')"
    using 2[rule_format, of "[(''Root'', ''r'')]" "''s''"]
    by (simp add: kvPairs_alb fieldOf_def)
  have c: "Data ev' ''sampled'' = Some (VString ''1'')"
    using 3[rule_format, of "[(''Root'', ''r''), (''Self'', ''s'')]" "''1''"]
    by (simp add: kvPairs_alb fieldOf_def)
  have d: "Data ev' ''app'' = Some (VString ''x'')"
    using 4[rule_format, of "[(''Root'', ''r''), (''Self'', ''s''), (''Sampled'', ''1'')]" "''app''" "''x''" "[]"]
    by (simp add: kvPairs_alb fieldOf_def derivedFields_def)
  have hr: "Data ev_root ''trace_id'' = Some (VString ''Root=1-5a88eced-40876ce050d010360bfb23bd'')"
    by (simp add: ev_root_def)
  have rr: "snd (traceFields False ''Root=1-5a88eced-40876ce050d010360bfb23bd'' (Data ev_root)) \<longrightarrow>
      (\<exists>t. fst (traceFields False ''Root=1-5a88eced-40876ce050d010360bfb23bd'' (Data ev_root)) ''trace.trace_id''
            = Some (VString t))"
    by (simp add: traceFields_pairs kvPairs_root applyPairs_Cons applyPairs_Nil traceSwitch_eq fieldOf_def)
  from addTraceData_header[OF hr rr, of rfc3339_sample]
  obtain ev'' where ok': "addTraceData rfc3339_sample ev_root False = Inr ev''"
    and 7: "\<forall>pre R post. kvPairs ''Root=1-5a88eced-40876ce050d010360bfb23bd'' = pre @ (''Root'', R) # post \<longrightarrow>
            fst (applyPairs False (pre @ [(''Root'', R)]) (Data ev_root, True)) ''trace.trace_id'' = Some (VString R)
          \<and> ((\<forall>(k', v')\<in>set post. fieldOf False k' \<noteq> Some ''trace.trace_id'') \<longrightarrow>
                Data ev'' ''trace.trace_id'' = Some (VString R))"
    and 8: "(\<forall>(k, v)\<in>set (kvPairs ''Root=1-5a88eced-40876ce050d010360bfb23bd''). k \<noteq> ''Self'' \<and> (k = ''Parent'' \<longrightarrow> False)) \<longrightarrow>
            snd (traceFields False ''Root=1-5a88eced-40876ce050d010360bfb23bd'' (Data ev_root))
          \<and> Data ev'' ''trace.span_id'' = Data ev'' ''trace.trace_id''
          \<and> (\<exists>t. Data ev'' ''trace.trace_id'' = Some (VString t))"
    by blast
  have e: "Data ev'' ''trace.trace_id'' = Some (VString ''1-5a88eced-40876ce050d010360bfb23bd'')"
    using 7[rule_format, of "[]" "''1-5a88eced-40876ce050d010360bfb23bd''" "[]"]
    by (simp add: kvPairs_root)
  have f: "Data ev'' ''trace.span_id'' = Some (VString ''1-5a88eced-40876ce050d010360bfb23bd'')"
    using 8 e by (simp add: kvPairs_root)
  from hd ok a b c d 5 6 hr ok' e f show ?thesis by blast
qed

text \<open>
  Claim C3, amended. With \<^verbatim>\<open>edgeMode\<close> a pair \<^verbatim>\<open>Parent=P\<close> changes neither the data nor
  \<^verbatim>\<open>rootSpan\<close>, and \<^verbatim>\<open>trace.parent_id\<close> is left as it was unless the header has a pair whose
  key is \<^verbatim>\<open>trace.parent_id\<close> itself. Without \<^verbatim>\<open>edgeMode\<close> a pair \<^verbatim>\<open>Parent=P\<close> sets
  \<^verbatim>\<open>trace.parent_id\<close> to \<open>P\<close> and \<^verbatim>\<open>rootSpan\<close> to false; \<open>P\<close> is in the result when no later
  pair is stored under \<^verbatim>\<open>trace.parent_id\<close>.
\<close>

theorem addTraceData_parent:
  assumes h: "Data ev ''trace_id'' = Some (VString h)"
    and ret: "snd (traceFields em h (Data ev)) \<longrightarrow>
      (\<exists>t. fst (traceFields em h (Data ev)) ''trace.trace_id'' = Some (VString t))"
  shows "\<exists>ev'. addTraceData tp ev em = Inr ev'
    \<and> (em \<longrightarrow>
          (\<forall>pre P. applyPairs em (pre @ [(''Parent'', P)]) (Data ev, True)
                     = applyPairs em pre (Data ev, True))
        \<and> ((\<forall>(k, v)\<in>set (kvPairs h). k \<noteq> ''trace.parent_id'') \<longrightarrow>
              Data ev' ''trace.parent_id'' = Data ev ''trace.parent_id''))
    \<and> (\<not> em \<longrightarrow>
          (\<forall>pre P post. kvPairs h = pre @ (''Parent'', P) # post \<longrightarrow>
              fst (applyPairs em (pre @ [(''Parent'', P)]) (Data ev, True)) ''trace.parent_id''
                = Some (VString P)
            \<and> \<not> snd (applyPairs em (pre @ [(''Parent'', P)]) (Data ev, True))
            \<and> \<not> snd (traceFields em h (Data ev))
            \<and> ((\<forall>(k', v')\<in>set post. fieldOf em k' \<noteq> Some ''trace.parent_id'') \<longrightarrow>
                  Data ev' ''trace.parent_id'' = Some (VString P))))"
proof -
  from addTraceData_returns[OF h] ret obtain ev' where ok: "addTraceData tp ev em = Inr ev'"
    by (auto simp: traceFields_pairs)
  obtain d r where st: "applyPairs em (kvPairs h) (Data ev, True) = (d, r)"
    by (cases "applyPairs em (kvPairs h) (Data ev, True)")
  have nd: "''trace.parent_id'' \<notin> set derivedFields"
    by (simp add: derivedFields_def)
  note res = addTraceData_result(1)[OF h ok st nd]
  have E1: "applyPairs em (pre @ [(''Parent'', P)]) (Data ev, True) = applyPairs em pre (Data ev, True)"
    if em for pre P
    using that by (simp add: applyPairs_append applyPairs_Cons applyPairs_Nil edge_Parent_noop)
  have E2: "Data ev' ''trace.parent_id'' = Data ev ''trace.parent_id''"
    if em "\<forall>(k, v)\<in>set (kvPairs h). k \<noteq> ''trace.parent_id''"
  proof -
    have "\<forall>(k, v)\<in>set (kvPairs h). fieldOf em k \<noteq> Some ''trace.parent_id''"
      using that by (fastforce simp: fieldOf_def split: if_splits)
    from applyPairs_untouched[OF this, of "Data ev" True] show ?thesis
      by (simp add: res st)
  qed
  have N: "fst (applyPairs em (pre @ [(''Parent'', P)]) (Data ev, True)) ''trace.parent_id''
                = Some (VString P)
            \<and> \<not> snd (applyPairs em (pre @ [(''Parent'', P)]) (Data ev, True))
            \<and> \<not> snd (traceFields em h (Data ev))
            \<and> ((\<forall>(k', v')\<in>set post. fieldOf em k' \<noteq> Some ''trace.parent_id'') \<longrightarrow>
                  Data ev' ''trace.parent_id'' = Some (VString P))"
    if em: "\<not> em" and ps: "kvPairs h = pre @ (''Parent'', P) # post" for pre P post
  proof -
    have fk: "fieldOf em ''Parent'' = Some ''trace.parent_id''"
      using em by (simp add: fieldOf_def)
    have 1: "\<not> snd (applyPairs em (pre @ [(''Parent'', P)]) (Data ev, True))"
      using em by (simp add: applyPairs_root)
    have 2: "\<not> snd (traceFields em h (Data ev))"
      using em by (simp add: traceFields_pairs ps applyPairs_root)
    show ?thesis
      using applyPairs_snoc[OF fk] 1 2 final_of_last[OF h ok ps fk _ nd] by blast
  qed
  from E1 E2 N have "(em \<longrightarrow>
          (\<forall>pre P. applyPairs em (pre @ [(''Parent'', P)]) (Data ev, True)
                     = applyPairs em pre (Data ev, True))
        \<and> ((\<forall>(k, v)\<in>set (kvPairs h). k \<noteq> ''trace.parent_id'') \<longrightarrow>
              Data ev' ''trace.parent_id'' = Data ev ''trace.parent_id''))
    \<and> (\<not> em \<longrightarrow>
          (\<forall>pre P post. kvPairs h = pre @ (''Parent'', P) # post \<longrightarrow>
              fst (applyPairs em (pre @ [(''Parent'', P)]) (Data ev, True)) ''trace.parent_id''
                = Some (VString P)
            \<and> \<not> snd (applyPairs em (pre @ [(''Parent'', P)]) (Data ev, True))
            \<and> \<not> snd (traceFields em h (Data ev))
            \<and> ((\<forall>(k', v')\<in>set post. fieldOf em k' \<noteq> Some ''trace.parent_id'') \<longrightarrow>
                  Data ev' ''trace.parent_id'' = Some (VString P))))"
    by (intro conjI allI impI) blast+
  with ok show ?thesis by blast
qed

theorem addTraceData_parent_witness:
  "Data ev_parent ''trace_id'' = Some (VString ''Root=r;Parent=p'')
   \<and> Data ev_parent ''trace.parent_id'' = None
   \<and> (\<exists>ev'. addTraceData rfc3339_sample ev_parent True = Inr ev'
         \<and> Data ev' ''trace.parent_id'' = None)
   \<and> (\<exists>ev'. addTraceData rfc3339_sample ev_parent False = Inr ev'
         \<and> Data ev' ''trace.parent_id'' = Some (VString ''p''))"
proof -
  have h: "Data ev_parent ''trace_id'' = Some (VString ''Root=r;Parent=p'')"
    and n: "Data ev_parent ''trace.parent_id'' = None"
    by (simp_all add: ev_parent_def)
  have ret: "snd (traceFields em ''Root=r;Parent=p'' (Data ev_parent)) \<longrightarrow>
      (\<exists>t. fst (traceFields em ''Root=r;Parent=p'' (Data ev_parent)) ''trace.trace_id'' = Some (VString t))"
    for em
    by (simp add: traceFields_pairs kvPairs_samples applyPairs_Cons applyPairs_Nil traceSwitch_eq
        fieldOf_def)
  from addTraceData_parent[OF h ret, of rfc3339_sample True]
  obtain ev0 where ok0: "addTraceData rfc3339_sample ev_parent True = Inr ev0"
    and E: "(\<forall>(k, v)\<in>set (kvPairs ''Root=r;Parent=p''). k \<noteq> ''trace.parent_id'') \<longrightarrow>
              Data ev0 ''trace.parent_id'' = Data ev_parent ''trace.parent_id''"
    by auto
  from E have "Data ev0 ''trace.parent_id'' = None"
    by (simp add: kvPairs_samples n)
  with ok0 have a: "\<exists>ev'. addTraceData rfc3339_sample ev_parent True = Inr ev'
         \<and> Data ev' ''trace.parent_id'' = None"
    by blast
  from addTraceData_parent[OF h ret, of rfc3339_sample False]
  obtain ev' where ok: "addTraceData rfc3339_sample ev_parent False = Inr ev'"
    and P: "\<forall>pre P post. kvPairs ''Root=r;Parent=p'' = pre @ (''Parent'', P) # post \<longrightarrow>
              fst (applyPairs False (pre @ [(''Parent'', P)]) (Data ev_parent, True)) ''trace.parent_id''
                = Some (VString P)
            \<and> \<not> snd (applyPairs False (pre @ [(''Parent'', P)]) (Data ev_parent, True))
            \<and> \<not> snd (traceFields False ''Root=r;Parent=p'' (Data ev_parent))
            \<and> ((\<forall>(k', v')\<in>set post. fieldOf False k' \<noteq> Some ''trace.parent_id'') \<longrightarrow>
                  Data ev' ''trace.parent_id'' = Some (VString P))"
    by auto
  have "Data ev' ''trace.parent_id'' = Some (VString ''p'')"
    using P[rule_format, of "[(''Root'', ''r'')]" "''p''" "[]"]
    by (simp add: kvPairs_samples)
  with ok have b: "\<exists>ev'. addTraceData rfc3339_sample ev_parent False = Inr ev'
         \<and> Data ev' ''trace.parent_id'' = Some (VString ''p'')"
    by blast
  from h n a b show ?thesis by blast
qed

text \<open>
  The claim as stated fails: with \<^verbatim>\<open>edgeMode\<close>, the header \<^verbatim>\<open>Root=r;trace.parent_id=p\<close>
  writes \<^verbatim>\<open>trace.parent_id\<close>, through the default case of the switch.
\<close>

theorem addTraceData_parent_counterexample:
  "Data ev_parent_field ''trace.parent_id'' = None
   \<and> (case addTraceData rfc3339_sample ev_parent_field True of
         Inr ev' \<Rightarrow> Data ev' ''trace.parent_id''
       | Inl p \<Rightarrow> None) = Some (VString ''p'')"
  by (simp add: addTraceData_def ev_parent_field_def traceFields_pairs kvPairs_samples
      applyPairs_def traceSwitch_def rootSpanID_def renameTraceHeader_def addName_def
      addServiceName_def addDuration_def durationMs_def responseDuration_def)

text \<open>
  Claim C4, amended. Let \<open>d\<close> be the data after the header pairs and the root span
  assignment. If \<^verbatim>\<open>response_time\<close> in \<open>d\<close> is a string that parses to an instant at least
  one millisecond after the timestamp, the duration is the difference (saturated as
  \<^verbatim>\<open>Time.Sub\<close> does) in whole milliseconds. In every other case, also when the instant is
  after the timestamp by less than a millisecond, the duration is
  \<^verbatim>\<open>request_processing_time\<close> when that is a \<^verbatim>\<open>float64\<close>, and zero otherwise.
  \<^verbatim>\<open>duration_ms\<close> is assigned the duration exactly when it is greater than zero, and is
  otherwise as in \<open>d\<close>. The three fields are those of the event when no header pair has
  one of their names as its key.
\<close>

theorem addTraceData_duration:
  assumes h: "Data ev ''trace_id'' = Some (VString h)"
    and d: "rootSpanID (traceFields em h (Data ev)) = Inr d"
  shows "(\<exists>ev'. addTraceData tp ev em = Inr ev'
        \<and> Data ev' ''duration_ms'' =
            (if f64_gt_zero (durationMs tp (Timestamp ev) d)
             then Some (VFloat64 (durationMs tp (Timestamp ev) d))
             else d ''duration_ms''))
    \<and> (\<forall>s tm. d ''response_time'' = Some (VString s) \<and> tp s = Some tm
            \<and> Timestamp ev + Millisecond \<le> tm \<longrightarrow>
          durationMs tp (Timestamp ev) d =
            Finite (real_of_int (time_Sub tm (Timestamp ev) div Millisecond)))
    \<and> ((\<forall>s tm. d ''response_time'' = Some (VString s) \<and> tp s = Some tm \<longrightarrow>
            tm < Timestamp ev + Millisecond) \<longrightarrow>
          durationMs tp (Timestamp ev) d =
            (case d ''request_processing_time'' of Some (VFloat64 t) \<Rightarrow> t | _ \<Rightarrow> Finite 0))
    \<and> ((\<forall>(k, v)\<in>set (kvPairs h).
            k \<noteq> ''response_time'' \<and> k \<noteq> ''request_processing_time'' \<and> k \<noteq> ''duration_ms'') \<longrightarrow>
          d ''response_time'' = Data ev ''response_time''
        \<and> d ''request_processing_time'' = Data ev ''request_processing_time''
        \<and> d ''duration_ms'' = Data ev ''duration_ms'')"
proof -
  obtain d1 r where st: "applyPairs em (kvPairs h) (Data ev, True) = (d1, r)"
    by (cases "applyPairs em (kvPairs h) (Data ev, True)")
  from d have d': "rootSpanID (d1, r) = Inr d" by (simp add: traceFields_pairs st)
  have ok: "addTraceData tp ev em = Inr (ev\<lparr>Data := renameTraceHeader h
                 (addName (addServiceName (addDuration tp (Timestamp ev) d)))\<rparr>)"
    by (simp add: addTraceData_string[OF h] st d')
  have 1: "\<exists>ev'. addTraceData tp ev em = Inr ev'
        \<and> Data ev' ''duration_ms'' =
            (if f64_gt_zero (durationMs tp (Timestamp ev) d)
             then Some (VFloat64 (durationMs tp (Timestamp ev) d))
             else d ''duration_ms'')"
    by (simp add: ok derived_duration)
  have 4: "d ''response_time'' = Data ev ''response_time''
        \<and> d ''request_processing_time'' = Data ev ''request_processing_time''
        \<and> d ''duration_ms'' = Data ev ''duration_ms''"
    if ks: "\<forall>(k, v)\<in>set (kvPairs h).
            k \<noteq> ''response_time'' \<and> k \<noteq> ''request_processing_time'' \<and> k \<noteq> ''duration_ms''"
  proof -
    have u: "d1 x = Data ev x"
      if "x = ''response_time'' \<or> x = ''request_processing_time'' \<or> x = ''duration_ms''" for x
    proof -
      have "\<forall>(k, v)\<in>set (kvPairs h). fieldOf em k \<noteq> Some x"
        using ks that by (fastforce simp: fieldOf_def split: if_splits)
      from applyPairs_untouched[OF this, of "Data ev" True] show ?thesis by (simp add: st)
    qed
    show ?thesis
      by (simp add: rootSpanID_Inr(1)[OF d'] u)
  qed
  from 1 durationMs_response[of d _ tp _ "Timestamp ev"] durationMs_fallback[of d tp "Timestamp ev"] 4
  show ?thesis by (intro conjI allI impI) blast+
qed

theorem addTraceData_duration_witness:
  "Data ev_quarter ''trace_id'' = Some (VString ''Root=r'')
   \<and> (\<exists>ev'. addTraceData rfc3339_sample ev_quarter False = Inr ev'
         \<and> Data ev' ''duration_ms'' = Some (VFloat64 (Finite 250)))"
proof -
  have h: "Data ev_quarter ''trace_id'' = Some (VString ''Root=r'')"
    by (simp add: ev_quarter_def)
  have "\<exists>d. rootSpanID (traceFields False ''Root=r'' (Data ev_quarter)) = Inr d"
    by (rule rootSpanID_total)
      (simp add: traceFields_pairs kvPairs_r applyPairs_Cons applyPairs_Nil traceSwitch_eq fieldOf_def)
  then obtain d where d: "rootSpanID (traceFields False ''Root=r'' (Data ev_quarter)) = Inr d" ..
  note T = addTraceData_duration[OF h d, of rfc3339_sample]
  from T have same: "d ''response_time'' = Data ev_quarter ''response_time''"
    by (simp add: kvPairs_r)
  then have rt: "d ''response_time'' = Some (VString ''1970-01-01T00:00:00.25Z'')"
    by (simp add: ev_quarter_def)
  have p: "rfc3339_sample ''1970-01-01T00:00:00.25Z'' = Some 250000000"
    by (simp add: rfc3339_sample_def)
  have ts: "Timestamp ev_quarter + Millisecond \<le> 250000000"
    by (simp add: ev_quarter_def Millisecond_def)
  from T rt p ts
  have "durationMs rfc3339_sample (Timestamp ev_quarter) d =
          Finite (real_of_int (time_Sub 250000000 (Timestamp ev_quarter) div Millisecond))"
    by blast
  then have ms: "durationMs rfc3339_sample (Timestamp ev_quarter) d = Finite 250"
    by (simp add: ev_quarter_def time_Sub_def Millisecond_def)
  from T ms have "\<exists>ev'. addTraceData rfc3339_sample ev_quarter False = Inr ev'
         \<and> Data ev' ''duration_ms'' = Some (VFloat64 (Finite 250))"
    by simp
  with h show ?thesis by blast
qed

text \<open>
  The claim as stated fails: a response time half a millisecond after the timestamp is
  strictly after it, yet \<^verbatim>\<open>duration_ms\<close> is the \<^verbatim>\<open>request_processing_time\<close>.
\<close>

theorem addTraceData_duration_counterexample:
  "Data ev_submilli ''response_time'' = Some (VString ''1970-01-01T00:00:00.0005Z'')
   \<and> rfc3339_sample ''1970-01-01T00:00:00.0005Z'' = Some 500000
   \<and> Timestamp ev_submilli < 500000
   \<and> (case addTraceData rfc3339_sample ev_submilli False of
         Inr ev' \<Rightarrow> Data ev' ''duration_ms''
       | Inl p \<Rightarrow> None) = Data ev_submilli ''request_processing_time''
   \<and> Data ev_submilli ''request_processing_time'' = Some (VFloat64 (Finite 0.001))"
  by (simp add: addTraceData_def ev_submilli_def traceFields_pairs kvPairs_r
      applyPairs_def traceSwitch_def rootSpanID_def renameTraceHeader_def addName_def
      addServiceName_def addDuration_def durationMs_def responseDuration_def
      rfc3339_sample_def time_Sub_def go_quot_def Millisecond_def float64_of_int_def
      round53_small Let_def)

text \<open>
  Claim C6. \<^verbatim>\<open>dropNegativeTimes\<close> applied twice is \<^verbatim>\<open>dropNegativeTimes\<close> applied once, and
  so is \<^verbatim>\<open>addTraceData\<close> with the same \<^verbatim>\<open>edgeMode\<close>: a panic of the first application is
  the outcome, and after a first application that returns the second changes nothing.
\<close>

theorem enrichment_idempotent:
  "dropNegativeTimes (dropNegativeTimes ev) = dropNegativeTimes ev
   \<and> (case addTraceData tp ev em of
         Inl p \<Rightarrow> Inl p
       | Inr ev' \<Rightarrow> addTraceData tp ev' em) = addTraceData tp ev em"
proof
  have "fold dropNegativeTime timeFields (fold dropNegativeTime timeFields (Data ev))
          = fold dropNegativeTime timeFields (Data ev)"
    using timeFields_ok by (simp add: fold_dropNegativeTime cleaned_idem)
  then show "dropNegativeTimes (dropNegativeTimes ev) = dropNegativeTimes ev"
    by (simp add: dropNegativeTimes_def)
next
  show "(case addTraceData tp ev em of
         Inl p \<Rightarrow> Inl p
       | Inr ev' \<Rightarrow> addTraceData tp ev' em) = addTraceData tp ev em"
  proof (cases "\<exists>h. Data ev ''trace_id'' = Some (VString h)")
    case False
    then have "addTraceData tp ev em = Inr ev"
      by (intro addTraceData_no_string) simp
    then show ?thesis by simp
  next
    case True
    then obtain h where h: "Data ev ''trace_id'' = Some (VString h)" ..
    show ?thesis
    proof (cases "addTraceData tp ev em")
      case (Inl p)
      then show ?thesis by simp
    next
      case (Inr ev')
      obtain d r where st: "applyPairs em (kvPairs h) (Data ev, True) = (d, r)"
        by (cases "applyPairs em (kvPairs h) (Data ev, True)")
      have "Data ev' ''trace_id'' = None"
        by (rule addTraceData_result(4)[OF h Inr st])
      then have "addTraceData tp ev' em = Inr ev'"
        by (intro addTraceData_no_string) simp
      with Inr show ?thesis by simp
    qed
  qed
qed

text \<open>
  Claim C9. \<^verbatim>\<open>addTraceData\<close> panics, in the type assertion of the root span assignment,
  when \<^verbatim>\<open>trace_id\<close> is a string, \<^verbatim>\<open>trace.trace_id\<close> is not already a string, and no pair of
  the header has the key \<^verbatim>\<open>Root\<close>, \<^verbatim>\<open>trace.trace_id\<close> or \<^verbatim>\<open>Self\<close>, nor \<^verbatim>\<open>Parent\<close> unless
  \<^verbatim>\<open>edgeMode\<close> is set. The header \<^verbatim>\<open>Sampled=1\<close> is such an input.
\<close>

theorem addTraceData_panics:
  assumes h: "Data ev ''trace_id'' = Some (VString h)"
    and t: "\<forall>t. Data ev ''trace.trace_id'' \<noteq> Some (VString t)"
    and ps: "\<forall>(k, v)\<in>set (kvPairs h).
               k \<noteq> ''Root'' \<and> k \<noteq> ''trace.trace_id'' \<and> k \<noteq> ''Self'' \<and> (k = ''Parent'' \<longrightarrow> em)"
  shows "addTraceData tp ev em = Inl InterfaceConversion"
proof -
  obtain d r where st: "applyPairs em (kvPairs h) (Data ev, True) = (d, r)"
    by (cases "applyPairs em (kvPairs h) (Data ev, True)")
  have r using applyPairs_root[of em "kvPairs h" "Data ev" True] ps by (auto simp: st)
  have "\<forall>(k, v)\<in>set (kvPairs h). fieldOf em k \<noteq> Some ''trace.trace_id''"
    using ps by (fastforce simp: fieldOf_def split: if_splits)
  from applyPairs_untouched[OF this, of "Data ev" True]
  have "d ''trace.trace_id'' = Data ev ''trace.trace_id''" by (simp add: st)
  with t have "\<forall>t. d ''trace.trace_id'' \<noteq> Some (VString t)" by simp
  with \<open>r\<close> have "rootSpanID (d, r) = Inl InterfaceConversion"
    by (simp add: rootSpanID_Inl)
  then show ?thesis
    by (simp add: addTraceData_string[OF h] st)
qed

theorem addTraceData_panics_witness:
  "Data ev_sampled ''trace_id'' = Some (VString ''Sampled=1'')
   \<and> Data ev_sampled ''trace.trace_id'' = None
   \<and> kvPairs ''Sampled=1'' = [(''Sampled'', ''1'')]
   \<and> addTraceData rfc3339_sample ev_sampled True = Inl InterfaceConversion
   \<and> addTraceData rfc3339_sample ev_sampled False = Inl InterfaceConversion"
proof -
  have h: "Data ev_sampled ''trace_id'' = Some (VString ''Sampled=1'')"
    and n: "Data ev_sampled ''trace.trace_id'' = None"
    by (simp_all add: ev_sampled_def)
  have t: "\<forall>t. Data ev_sampled ''trace.trace_id'' \<noteq> Some (VString t)"
    by (simp add: n)
  have ps: "\<forall>(k, v)\<in>set (kvPairs ''Sampled=1'').
               k \<noteq> ''Root'' \<and> k \<noteq> ''trace.trace_id'' \<and> k \<noteq> ''Self'' \<and> (k = ''Parent'' \<longrightarrow> em)" for em
    by (simp add: kvPairs_samples)
  show ?thesis
    using addTraceData_panics[OF h t ps, of rfc3339_sample True]
      addTraceData_panics[OF h t ps, of rfc3339_sample False] h n
    by (simp add: kvPairs_samples)
qed

end
